theory Spec2Isabelle
  imports Complex_Main
begin

section \<open>Numbers and errors\<close>

text \<open>
  The bot stores loot values as Python floats (the \<^verbatim>\<open>total_value REAL\<close> column, the
  results of \<^verbatim>\<open>float(...)\<close>).  A float is modelled by its exact rational value or one
  of the three special values that \<^verbatim>\<open>float()\<close> can return from a string.  Rounding,
  overflow to infinity and the sign of zero are not modelled.
\<close>

datatype pyfloat = Fin rat | PInf | NInf | NaN

datatype py_error = KeyError | ValueError | ZeroDivisionError | NotFound | HTTPException

fun py_neg :: "pyfloat \<Rightarrow> pyfloat" where
  "py_neg (Fin a) = Fin (- a)"
| "py_neg PInf = NInf"
| "py_neg NInf = PInf"
| "py_neg NaN = NaN"

fun py_add :: "pyfloat \<Rightarrow> pyfloat \<Rightarrow> pyfloat" where
  "py_add (Fin a) (Fin b) = Fin (a + b)"
| "py_add NaN _ = NaN"
| "py_add _ NaN = NaN"
| "py_add PInf NInf = NaN"
| "py_add NInf PInf = NaN"
| "py_add PInf _ = PInf"
| "py_add NInf _ = NInf"
| "py_add _ PInf = PInf"
| "py_add _ NInf = NInf"

definition py_sub :: "pyfloat \<Rightarrow> pyfloat \<Rightarrow> pyfloat" where
  "py_sub a b = py_add a (py_neg b)"

text \<open>The sign of a float: 1, -1, or 0 for a zero; NaN has none.\<close>

fun py_sign :: "pyfloat \<Rightarrow> int option" where
  "py_sign (Fin a) = Some (if 0 < a then 1 else if a < 0 then - 1 else 0)"
| "py_sign PInf = Some 1"
| "py_sign NInf = Some (- 1)"
| "py_sign NaN = None"

fun py_mul :: "pyfloat \<Rightarrow> pyfloat \<Rightarrow> pyfloat" where
  "py_mul (Fin a) (Fin b) = Fin (a * b)"
| "py_mul a b =
     (case (py_sign a, py_sign b) of
        (Some s, Some t) \<Rightarrow>
          (if s * t = 0 then NaN else if 0 < s * t then PInf else NInf)
      | _ \<Rightarrow> NaN)"


text \<open>\<^verbatim>\<open>a < b\<close> on floats: every comparison with NaN is false.\<close>

fun py_lt :: "pyfloat \<Rightarrow> pyfloat \<Rightarrow> bool" where
  "py_lt NaN _ = False"
| "py_lt _ NaN = False"
| "py_lt (Fin a) (Fin b) = (a < b)"
| "py_lt NInf NInf = False"
| "py_lt NInf _ = True"
| "py_lt _ NInf = False"
| "py_lt PInf _ = False"
| "py_lt _ PInf = True"

text \<open>
  Python's two-argument \<^verbatim>\<open>max(a, b)\<close>: the first argument is kept unless the second
  compares greater.
\<close>

definition py_max :: "pyfloat \<Rightarrow> pyfloat \<Rightarrow> pyfloat" where
  "py_max a b = (if py_lt a b then b else a)"

section \<open>The ledger store\<close>

text \<open>
  One guild's \<^verbatim>\<open>player_values\<close> table, keyed by player id.  The connection argument
  \<^verbatim>\<open>conn\<close> of the helper functions is this table; each helper returns the table after
  its \<^verbatim>\<open>commit\<close>.
\<close>

type_synonym ledger = "int \<rightharpoonup> pyfloat"

definition get_player_value :: "ledger \<Rightarrow> int \<Rightarrow> pyfloat" where
  "get_player_value conn player_id =
     (case conn player_id of Some v \<Rightarrow> v | None \<Rightarrow> Fin 0)"

definition update_player_value :: "ledger \<Rightarrow> int \<Rightarrow> pyfloat \<Rightarrow> ledger" where
  "update_player_value conn player_id new_value = conn(player_id \<mapsto> new_value)"

definition reset_player_value :: "ledger \<Rightarrow> int \<Rightarrow> ledger" where
  "reset_player_value conn player_id =
     (case conn player_id of Some _ \<Rightarrow> conn(player_id \<mapsto> Fin 0) | None \<Rightarrow> conn)"

definition add_to_player_value :: "ledger \<Rightarrow> int \<Rightarrow> pyfloat \<Rightarrow> ledger" where
  "add_to_player_value conn player_id amount =
     (let current_value = get_player_value conn player_id
      in update_player_value conn player_id (py_add current_value amount))"

definition remove_from_player_value :: "ledger \<Rightarrow> int \<Rightarrow> pyfloat \<Rightarrow> ledger" where
  "remove_from_player_value conn player_id amount =
     (let current_value = get_player_value conn player_id
      in update_player_value conn player_id
           (py_max (py_sub current_value amount) (Fin 0)))"

section \<open>Strings and the value parser\<close>

text \<open>
  Strings are lists of 8-bit characters; the Python string methods below are modelled
  on ASCII text.
\<close>

definition is_space :: "char \<Rightarrow> bool" where
  "is_space c = (let n = (of_char c :: nat) in (9 \<le> n \<and> n \<le> 13) \<or> (28 \<le> n \<and> n \<le> 32))"

definition is_digit :: "char \<Rightarrow> bool" where
  "is_digit c = (let n = (of_char c :: nat) in 48 \<le> n \<and> n \<le> 57)"

definition digit_val :: "char \<Rightarrow> nat" where
  "digit_val c = of_char c - 48"

definition lower_char :: "char \<Rightarrow> char" where
  "lower_char c =
     (let n = (of_char c :: nat) in if 65 \<le> n \<and> n \<le> 90 then char_of (n + 32) else c)"

definition lower :: "string \<Rightarrow> string" where
  "lower s = map lower_char s"

definition strip :: "string \<Rightarrow> string" where
  "strip s = rev (dropWhile is_space (rev (dropWhile is_space s)))"

definition endswith :: "string \<Rightarrow> string \<Rightarrow> bool" where
  "endswith s suf = (length suf \<le> length s \<and> drop (length s - length suf) s = suf)"

definition startswith :: "string \<Rightarrow> string \<Rightarrow> bool" where
  "startswith s pre = (take (length pre) s = pre)"

text \<open>A \<^verbatim>\<open>digitpart\<close> of Python's grammar: digits, with single underscores between them.\<close>

fun digitpart :: "string \<Rightarrow> bool" where
  "digitpart [] = False"
| "digitpart [c] = is_digit c"
| "digitpart (c # d # cs) =
     (is_digit c \<and> (if d = CHR ''_'' then digitpart cs else digitpart (d # cs)))"

definition digits_value :: "string \<Rightarrow> nat" where
  "digits_value s = foldl (\<lambda>a c. 10 * a + digit_val c) 0 (filter is_digit s)"

definition split_sign :: "string \<Rightarrow> bool \<times> string" where
  "split_sign s =
     (case s of
        c # r \<Rightarrow> (if c = CHR ''-'' then (True, r) else if c = CHR ''+'' then (False, r)
                  else (False, s))
      | [] \<Rightarrow> (False, s))"

text \<open>
  The exponent part after the letter \<^verbatim>\<open>e\<close>: an optional sign and a digitpart.
\<close>

definition exponent_value :: "string \<Rightarrow> int option" where
  "exponent_value s =
     (let (neg, d) = split_sign s
      in if digitpart d then Some (if neg then - int (digits_value d) else int (digits_value d))
         else None)"

text \<open>
  The mantissa: \<^verbatim>\<open>[digitpart] "." digitpart | digitpart ["."]\<close>.
\<close>

definition number_value :: "string \<Rightarrow> rat option" where
  "number_value s =
     (let ip = takeWhile (\<lambda>c. c \<noteq> CHR ''.'') s;
          r = dropWhile (\<lambda>c. c \<noteq> CHR ''.'') s
      in if r = [] then (if digitpart ip then Some (of_nat (digits_value ip)) else None)
         else let fp = tl r
              in if fp = [] then (if digitpart ip then Some (of_nat (digits_value ip)) else None)
                 else if digitpart fp \<and> (ip = [] \<or> digitpart ip)
                 then Some (of_nat (digits_value (ip @ fp))
                            / 10 ^ length (filter is_digit fp))
                 else None)"

definition pow10 :: "int \<Rightarrow> rat" where
  "pow10 e = (if 0 \<le> e then 10 ^ nat e else 1 / 10 ^ nat (- e))"

text \<open>
  Python's \<^verbatim>\<open>float(s)\<close> on a string; \<open>None\<close> stands for the \<^verbatim>\<open>ValueError\<close> it raises
  on a string that is not a float literal.
\<close>

definition py_float :: "string \<Rightarrow> pyfloat option" where
  "py_float s =
     (let (neg, u) = split_sign (strip s);
          lu = lower u
      in if lu = ''inf'' \<or> lu = ''infinity'' then Some (if neg then NInf else PInf)
         else if lu = ''nan'' then Some NaN
         else let m = takeWhile (\<lambda>c. c \<noteq> CHR ''e'') lu;
                  r = dropWhile (\<lambda>c. c \<noteq> CHR ''e'') lu
              in case number_value m of
                   None \<Rightarrow> None
                 | Some q \<Rightarrow>
                     (case (if r = [] then Some 0 else exponent_value (tl r)) of
                        None \<Rightarrow> None
                      | Some e \<Rightarrow> Some (Fin ((if neg then - 1 else 1) * q * pow10 e))))"

definition parse_value :: "string \<Rightarrow> pyfloat option" where
  "parse_value value_str0 =
     (let value_str = lower value_str0
      in if endswith value_str ''k''
         then map_option (\<lambda>x. py_mul x (Fin 1000)) (py_float (butlast value_str))
         else if endswith value_str ''m''
         then map_option (\<lambda>x. py_mul x (Fin 1000000)) (py_float (butlast value_str))
         else py_float value_str)"

text \<open>
  The \<^verbatim>\<open>/addvalue\<close> and \<^verbatim>\<open>/removevalue\<close> commands of \<^verbatim>\<open>AdminCommands\<close>, after the
  permission check of the cog: the reply and the guild's table afterwards.
\<close>

datatype admin_reply = InvalidValueFormat | Added pyfloat | Removed pyfloat

definition add_value :: "ledger \<Rightarrow> int \<Rightarrow> string \<Rightarrow> admin_reply \<times> ledger" where
  "add_value conn player value =
     (case parse_value value of
        None \<Rightarrow> (InvalidValueFormat, conn)
      | Some amount \<Rightarrow> (Added amount, add_to_player_value conn player amount))"

definition remove_value :: "ledger \<Rightarrow> int \<Rightarrow> string \<Rightarrow> admin_reply \<times> ledger" where
  "remove_value conn player value =
     (case parse_value value of
        None \<Rightarrow> (InvalidValueFormat, conn)
      | Some amount \<Rightarrow> (Removed amount, remove_from_player_value conn player amount))"

section \<open>Dictionaries that keep insertion order\<close>

text \<open>
  A Python \<^verbatim>\<open>dict\<close> iterated in insertion order is an association list with distinct
  keys.  Assigning to a present key keeps its position; a new key goes to the end.
\<close>

fun dict_set :: "('k \<times> 'v) list \<Rightarrow> 'k \<Rightarrow> 'v \<Rightarrow> ('k \<times> 'v) list" where
  "dict_set [] k v = [(k, v)]"
| "dict_set ((k', v') # d) k v = (if k' = k then (k, v) # d else (k', v') # dict_set d k v)"

definition dict_get :: "('k \<times> 'v) list \<Rightarrow> 'k \<Rightarrow> 'v option" where
  "dict_get d k = map_of d k"

text \<open>The comprehension \<^verbatim>\<open>{k: v for k in ks}\<close>.\<close>

definition dict_fromkeys :: "'k list \<Rightarrow> 'v \<Rightarrow> ('k \<times> 'v) list" where
  "dict_fromkeys ks v = foldl (\<lambda>d k. dict_set d k v) [] ks"

section \<open>Events and role sign-up\<close>

type_synonym user = string
type_synonym role = string

record event =
  message_id :: "int option"
  channel_id :: int
  user_roles :: "(role \<times> user list) list"
  active_users_roles :: "user \<rightharpoonup> role"
  start_time :: rat
  cancelled :: bool

text \<open>The two registries of an announcement cog.\<close>

record cog =
  active_events :: "int \<rightharpoonup> event"
  message_id_to_event_id :: "int \<rightharpoonup> int"

text \<open>
  The entry that \<^verbatim>\<open>f2b\<close> and \<^verbatim>\<open>ff\<close> store for a new event, for the drawn id, the channel,
  the parsed start time and the role names of the template.
\<close>

definition new_event :: "int \<Rightarrow> rat \<Rightarrow> role list \<Rightarrow> event" where
  "new_event chan t roles_list =
     \<lparr> message_id = None, channel_id = chan, user_roles = dict_fromkeys roles_list [],
       active_users_roles = Map.empty, start_time = t, cancelled = False \<rparr>"

definition register_event :: "cog \<Rightarrow> int \<Rightarrow> int \<Rightarrow> rat \<Rightarrow> role list \<Rightarrow> cog" where
  "register_event c event_id chan t roles_list =
     c\<lparr> active_events := (active_events c)(event_id \<mapsto> new_event chan t roles_list) \<rparr>"

text \<open>After the announcement is posted its message id is recorded in both registries.\<close>

definition record_message :: "cog \<Rightarrow> int \<Rightarrow> int \<Rightarrow> py_error + cog" where
  "record_message c event_id mid =
     (case active_events c event_id of
        None \<Rightarrow> Inl KeyError
      | Some ev \<Rightarrow>
          Inr (c\<lparr> active_events := (active_events c)(event_id \<mapsto> ev\<lparr> message_id := Some mid \<rparr>),
                  message_id_to_event_id := (message_id_to_event_id c)(mid \<mapsto> event_id) \<rparr>))"

text \<open>
  The entry of an event as its buttons find it in the registry: before the announcement
  is posted it has no message id, afterwards it has one.
\<close>

definition announced_event :: "int \<Rightarrow> rat \<Rightarrow> role list \<Rightarrow> int option \<Rightarrow> event" where
  "announced_event chan t roles_list m = (new_event chan t roles_list)\<lparr> message_id := m \<rparr>"

datatype signup_reply = ErrorEventNotFound | EventCanceled | AlreadySignedUp | EmbedUpdated

text \<open>
  The loop \<^verbatim>\<open>for other_role in user_roles: if u in user_roles[other_role]: ...remove(u)\<close>.
\<close>

definition remove_everywhere :: "user \<Rightarrow> (role \<times> user list) list \<Rightarrow> (role \<times> user list) list" where
  "remove_everywhere u d = map (\<lambda>(r, us). (r, if u \<in> set us then remove1 u us else us)) d"

text \<open>
  The block under \<^verbatim>\<open>async with data_lock\<close>, the same text in \<^verbatim>\<open>role_signup_callback\<close>
  (\<^verbatim>\<open>f2b\<close>) and in \<^verbatim>\<open>signup_callback\<close> (\<^verbatim>\<open>ff\<close>).  A role that is not a key of
  \<^verbatim>\<open>user_roles\<close> raises \<^verbatim>\<open>KeyError\<close> before anything is changed.
\<close>

definition toggle_role :: "event \<Rightarrow> role \<Rightarrow> user \<Rightarrow> py_error + (signup_reply \<times> event)" where
  "toggle_role ev role_name user_mention =
     (case dict_get (user_roles ev) role_name of
        None \<Rightarrow> Inl KeyError
      | Some us \<Rightarrow>
          if user_mention \<in> set us
          then Inr (EmbedUpdated,
                    ev\<lparr> user_roles := dict_set (user_roles ev) role_name (remove1 user_mention us),
                        active_users_roles := (active_users_roles ev)(user_mention := None) \<rparr>)
          else if active_users_roles ev user_mention \<noteq> None
          then Inr (AlreadySignedUp, ev)
          else let cleared = remove_everywhere user_mention (user_roles ev)
               in (case dict_get cleared role_name of
                     None \<Rightarrow> Inl KeyError
                   | Some us' \<Rightarrow>
                       Inr (EmbedUpdated,
                            ev\<lparr> user_roles := dict_set cleared role_name (us' @ [user_mention]),
                                active_users_roles :=
                                  (active_users_roles ev)(user_mention \<mapsto> role_name) \<rparr>)))"

text \<open>
  The whole button callback: the event is found through the id of the clicked message;
  a cancelled event is refused; otherwise the locked block runs on the event's entry.
\<close>

definition signup_callback ::
  "cog \<Rightarrow> role \<Rightarrow> int \<Rightarrow> user \<Rightarrow> py_error + (signup_reply \<times> cog)" where
  "signup_callback c role_name mid user_mention =
     (case message_id_to_event_id c mid of
        None \<Rightarrow> Inr (ErrorEventNotFound, c)
      | Some event_id_lookup \<Rightarrow>
          (case active_events c event_id_lookup of
             None \<Rightarrow> Inl KeyError
           | Some event_data \<Rightarrow>
               if cancelled event_data then Inr (EventCanceled, c)
               else (case toggle_role event_data role_name user_mention of
                       Inl e \<Rightarrow> Inl e
                     | Inr (rep, ev') \<Rightarrow>
                         Inr (rep, c\<lparr> active_events :=
                                        (active_events c)(event_id_lookup \<mapsto> ev') \<rparr>))))"

definition role_signup_callback ::
  "cog \<Rightarrow> role \<Rightarrow> int \<Rightarrow> user \<Rightarrow> py_error + (signup_reply \<times> cog)" where
  "role_signup_callback = signup_callback"

text \<open>
  A sequence of clicks on one event; a click that raises or is refused leaves the
  event as it was.
\<close>

fun toggles :: "event \<Rightarrow> (role \<times> user) list \<Rightarrow> event" where
  "toggles ev [] = ev"
| "toggles ev ((r, u) # ops) =
     (case toggle_role ev r u of Inl _ \<Rightarrow> toggles ev ops | Inr (_, ev') \<Rightarrow> toggles ev' ops)"

text \<open>The role slots in which a user stands, and the invariants of the slot table.\<close>

definition slots_of :: "event \<Rightarrow> user \<Rightarrow> role list" where
  "slots_of ev u = map fst (filter (\<lambda>(r, us). u \<in> set us) (user_roles ev))"

definition all_users :: "event \<Rightarrow> user list" where
  "all_users ev = concat (map snd (user_roles ev))"

definition at_most_one_role :: "event \<Rightarrow> bool" where
  "at_most_one_role ev = (\<forall>u \<in> set (all_users ev). length (slots_of ev u) \<le> 1)"

definition slots_wf :: "event \<Rightarrow> bool" where
  "slots_wf ev = (distinct (map fst (user_roles ev)) \<and> distinct (all_users ev))"

text \<open>The users with an active-role marker are the users standing in some slot.\<close>

definition markers_ok :: "event \<Rightarrow> bool" where
  "markers_ok ev = (dom (active_users_roles ev) = set (all_users ev))"

section \<open>Cancelling an event and the countdown\<close>

datatype cancel_reply = CancelEventNotFound | EventCancelled | NoPermission | RoleNotSet

text \<open>
  The cancel button of \<^verbatim>\<open>f2b\<close>.  \<open>role_id\<close> is the stored "Content Admin rights" setting
  and \<open>permitted\<close> says whether the clicking user holds that role or created the event.
  The flag is set and the entry deleted in one go, with no \<^verbatim>\<open>await\<close> between.
\<close>

definition f2b_cancel_event_callback ::
  "cog \<Rightarrow> int \<Rightarrow> int option \<Rightarrow> bool \<Rightarrow> cancel_reply \<times> cog" where
  "f2b_cancel_event_callback c mid role_id permitted =
     (case message_id_to_event_id c mid of
        None \<Rightarrow> (CancelEventNotFound, c)
      | Some event_id_lookup \<Rightarrow>
          if role_id \<noteq> None \<and> role_id \<noteq> Some 0
          then if permitted
               then (EventCancelled,
                     case active_events c event_id_lookup of
                       None \<Rightarrow> c
                     | Some ev \<Rightarrow>
                         let c1 = c\<lparr> active_events :=
                                       (active_events c)(event_id_lookup \<mapsto> ev\<lparr> cancelled := True \<rparr>) \<rparr>;
                             c2 = c1\<lparr> active_events := (active_events c1)(event_id_lookup := None) \<rparr>
                         in c2\<lparr> message_id_to_event_id := (message_id_to_event_id c2)(mid := None) \<rparr>)
               else (NoPermission, c)
          else (RoleNotSet, c))"

text \<open>
  The cancel button of \<^verbatim>\<open>ff\<close>: the entry is read with \<^verbatim>\<open>self.active_events[...]\<close>, which
  raises on a missing id; the flag is set, the reply and the deletion of the message
  are awaited, then the entry is deleted.
\<close>

definition ff_cancel_event_callback ::
  "cog \<Rightarrow> int \<Rightarrow> int option \<Rightarrow> bool \<Rightarrow> py_error + (cancel_reply \<times> cog)" where
  "ff_cancel_event_callback c mid role_id permitted =
     (case message_id_to_event_id c mid of
        None \<Rightarrow> Inr (CancelEventNotFound, c)
      | Some event_id_lookup \<Rightarrow>
          if role_id \<noteq> None \<and> role_id \<noteq> Some 0
          then if permitted
               then (case active_events c event_id_lookup of
                       None \<Rightarrow> Inl KeyError
                     | Some event_data \<Rightarrow>
                         let c1 = c\<lparr> active_events :=
                                       (active_events c)(event_id_lookup \<mapsto>
                                          event_data\<lparr> cancelled := True \<rparr>) \<rparr>;
                             c2 = c1\<lparr> active_events := (active_events c1)(event_id_lookup := None) \<rparr>
                         in Inr (EventCancelled,
                                 c2\<lparr> message_id_to_event_id :=
                                       (message_id_to_event_id c2)(mid := None) \<rparr>))
               else Inr (NoPermission, c)
          else Inr (RoleNotSet, c))"

datatype notice = Reminder | StartNotice

text \<open>
  How a run of the countdown loop stands when its observations are used up: still
  asleep between two polls (with the value of \<^verbatim>\<open>five_minute_reminder_sent\<close>), left by
  \<^verbatim>\<open>break\<close>, or left by an exception.
\<close>

datatype loop_end = Sleeping bool | Finished | Raised py_error

text \<open>
  One observation per pass of \<^verbatim>\<open>while True\<close>: the clock reading \<^verbatim>\<open>now\<close> (in seconds)
  and the registries as they are at that moment.  The result is the list of messages
  sent to the channel, in order, and how the run ended.

  \<^verbatim>\<open>RaidAnnouncement.track_event_time\<close> reads the flag with
  \<^verbatim>\<open>self.active_events.get(event_id, {}).get('cancelled', False)\<close>.
\<close>

fun raid_track_loop :: "int \<Rightarrow> rat \<Rightarrow> bool \<Rightarrow> (rat \<times> cog) list \<Rightarrow> notice list \<times> loop_end" where
  "raid_track_loop event_id event_start_time sent [] = ([], Sleeping sent)"
| "raid_track_loop event_id event_start_time sent ((now, c) # obs) =
     (let remaining_time = event_start_time - now
      in if (case active_events c event_id of None \<Rightarrow> False | Some ev \<Rightarrow> cancelled ev)
         then ([], Finished)
         else if remaining_time \<le> 0 then ([StartNotice], Finished)
         else if remaining_time \<le> 300 \<and> \<not> sent
         then (let (ms, e) = raid_track_loop event_id event_start_time True obs
               in (Reminder # ms, e))
         else raid_track_loop event_id event_start_time sent obs)"

definition RaidAnnouncement_track_event_time ::
  "int \<Rightarrow> rat \<Rightarrow> (rat \<times> cog) list \<Rightarrow> notice list \<times> loop_end" where
  "RaidAnnouncement_track_event_time event_id event_start_time obs =
     raid_track_loop event_id event_start_time False obs"

text \<open>
  The module-level \<^verbatim>\<open>track_event_time(interaction, event_start_time, event_id)\<close> that
  \<^verbatim>\<open>ff\<close> awaits (it replaces the two-argument function of the same name defined earlier
  in the file).  It reads the flag with \<^verbatim>\<open>active_events[event_id]['cancelled']\<close>, which
  raises on a missing id.
\<close>

fun track_loop :: "int \<Rightarrow> rat \<Rightarrow> bool \<Rightarrow> (rat \<times> cog) list \<Rightarrow> notice list \<times> loop_end" where
  "track_loop event_id event_start_time sent [] = ([], Sleeping sent)"
| "track_loop event_id event_start_time sent ((now, c) # obs) =
     (let remaining_time = event_start_time - now
      in case active_events c event_id of
           None \<Rightarrow> ([], Raised KeyError)
         | Some ev \<Rightarrow>
             if cancelled ev then ([], Finished)
             else if remaining_time \<le> 0 then ([StartNotice], Finished)
             else if remaining_time \<le> 300 \<and> \<not> sent
             then (let (ms, e) = track_loop event_id event_start_time True obs
                   in (Reminder # ms, e))
             else track_loop event_id event_start_time sent obs)"

definition track_event_time ::
  "rat \<Rightarrow> int \<Rightarrow> (rat \<times> cog) list \<Rightarrow> notice list \<times> loop_end" where
  "track_event_time event_start_time event_id obs = track_loop event_id event_start_time False obs"


text \<open>
  What a run without cancellation sends, read off the clock readings: the polls before
  the first one at or after the start time, a reminder if one of them is within 300
  seconds of the start, and the start notice if the start time is reached.
\<close>

definition before_start :: "rat \<Rightarrow> (rat \<times> cog) list \<Rightarrow> (rat \<times> cog) list" where
  "before_start event_start_time obs = takeWhile (\<lambda>(now, c). 0 < event_start_time - now) obs"

definition expected_notices :: "rat \<Rightarrow> (rat \<times> cog) list \<Rightarrow> notice list \<times> loop_end" where
  "expected_notices event_start_time obs =
     (let pre = before_start event_start_time obs;
          rem = (if list_ex (\<lambda>(now, c). event_start_time - now \<le> 300) pre then [Reminder] else [])
      in if length pre < length obs then (rem @ [StartNotice], Finished)
         else (rem, Sleeping (rem \<noteq> [])))"

section \<open>Loot splits\<close>

record player_info =
  submitted :: bool
  image_count :: nat
  value_added :: bool

text \<open>
  A split: the \<^verbatim>\<open>players\<close> dictionary, keyed by member (members are equal when their
  ids are, so the key is the id), and the share \<^verbatim>\<open>worth\<close>.
\<close>

record split =
  players :: "(int \<times> player_info) list"
  worth :: pyfloat

text \<open>
  The state of the \<^verbatim>\<open>SplitTracker\<close> cog, with the per-guild databases that its commands
  open by guild id.
\<close>

record tracker =
  tagged_members :: "int \<rightharpoonup> split"
  tracked_message_ids :: "int \<rightharpoonup> int"
  db :: "int \<Rightarrow> ledger"

text \<open>
  What a command or button handler takes from its interaction: the guild, the channel
  or thread, whether the channel is a thread, which ids \<^verbatim>\<open>fetch_member\<close> finds in the
  guild, the id of the message that \<^verbatim>\<open>followup.send\<close> posts, and whether the Discord
  calls made after the bookkeeping (reply, thread edit) go through.
\<close>

record interaction =
  i_guild_id :: int
  i_channel_id :: int
  i_is_thread :: bool
  i_fetch_member :: "int \<Rightarrow> bool"
  i_sent_message_id :: int
  i_discord_ok :: bool

datatype split_reply =
  ProvideMentions | InvalidMention string | InvalidMentionFormat string | InvalidValue
  | LootSplitStarting | ConfirmedThreadClosed | Confirmed | SplitCanceled

text \<open>\<^verbatim>\<open>str.split()\<close> without arguments: the maximal runs of non-whitespace.\<close>

fun split_acc :: "string \<Rightarrow> string \<Rightarrow> string list" where
  "split_acc cur [] = (if cur = [] then [] else [rev cur])"
| "split_acc cur (c # cs) =
     (if is_space c then (if cur = [] then split_acc [] cs else rev cur # split_acc [] cs)
      else split_acc (c # cur) cs)"

definition py_split :: "string \<Rightarrow> string list" where
  "py_split s = split_acc [] s"






text \<open>
  An observed message: whether it has attachments, its text, channel and author, and
  whether fetching and editing the tracker message go through.
\<close>

record message =
  m_attachments :: bool
  m_content :: string
  m_channel_id :: int
  m_author :: int
  m_fetch_ok :: bool

datatype effect = ReactionAdded | TrackerEdited | VerificationPosted | FailureLogged

definition has_proof :: "message \<Rightarrow> bool" where
  "has_proof m = (m_attachments m \<or> list_ex (\<lambda>url. startswith url ''http'') (py_split (m_content m)))"

definition on_message :: "tracker \<Rightarrow> message \<Rightarrow> effect list \<times> tracker" where
  "on_message st m =
     (if has_proof m
      then (case tagged_members st (m_channel_id m) of
              None \<Rightarrow> ([], st)
            | Some sp \<Rightarrow>
                (case dict_get (players sp) (m_author m) of
                   None \<Rightarrow> ([], st)
                 | Some info \<Rightarrow>
                     (let info' = info\<lparr> submitted := True, image_count := image_count info + 1 \<rparr>;
                          sp' = sp\<lparr> players := dict_set (players sp) (m_author m) info' \<rparr>;
                          st' = st\<lparr> tagged_members := (tagged_members st)(m_channel_id m \<mapsto> sp') \<rparr>
                      in (ReactionAdded #
                            (case tracked_message_ids st (m_channel_id m) of
                               None \<Rightarrow> []
                             | Some tracked_id \<Rightarrow>
                                 if tracked_id = 0 then []
                                 else if m_fetch_ok m
                                 then TrackerEdited #
                                        (if list_all (\<lambda>(p, inf). submitted inf) (players sp')
                                         then [VerificationPosted] else [])
                                 else [FailureLogged]),
                          st'))))
      else ([], st))"

text \<open>
  The loop of \<^verbatim>\<open>finalize_split\<close> over \<^verbatim>\<open>players.items()\<close>: the table and the dictionary
  after it.
\<close>

fun credit_players ::
  "ledger \<Rightarrow> pyfloat \<Rightarrow> (int \<times> player_info) list \<Rightarrow> ledger \<times> (int \<times> player_info) list" where
  "credit_players conn w [] = (conn, [])"
| "credit_players conn w ((player, info) # rest) =
     (if submitted info \<and> \<not> value_added info
      then (let (conn', rest') = credit_players (add_to_player_value conn player w) w rest
            in (conn', (player, info\<lparr> value_added := True \<rparr>) # rest'))
      else (let (conn', rest') = credit_players conn w rest
            in (conn', (player, info) # rest')))"

text \<open>
  \<^verbatim>\<open>finalize_split\<close>: a missing id raises at \<^verbatim>\<open>self.tagged_members[post_id]\<close>; the entry
  is deleted only after the reply and the thread edits, so a failure of those leaves
  the split in place with its flags set.
\<close>

definition finalize_split ::
  "tracker \<Rightarrow> interaction \<Rightarrow> int \<Rightarrow> (py_error + split_reply) \<times> tracker" where
  "finalize_split st i post_id =
     (case tagged_members st post_id of
        None \<Rightarrow> (Inl KeyError, st)
      | Some sp \<Rightarrow>
          (let (conn', ps') = credit_players (db st (i_guild_id i)) (worth sp) (players sp);
               st1 = st\<lparr> tagged_members := (tagged_members st)(post_id \<mapsto> sp\<lparr> players := ps' \<rparr>),
                        db := (db st)(i_guild_id i := conn') \<rparr>
           in if i_discord_ok i
              then (Inr (if i_is_thread i then ConfirmedThreadClosed else Confirmed),
                    st1\<lparr> tagged_members := (tagged_members st1)(post_id := None) \<rparr>)
              else (Inl HTTPException, st1)))"

definition cancel_split ::
  "tracker \<Rightarrow> interaction \<Rightarrow> int \<Rightarrow> (py_error + split_reply) \<times> tracker" where
  "cancel_split st i post_id =
     (case tagged_members st post_id of
        None \<Rightarrow> (Inl KeyError, st)
      | Some sp \<Rightarrow>
          (let st1 = st\<lparr> tagged_members := (tagged_members st)(post_id := None) \<rparr>
           in if i_discord_ok i then (Inr SplitCanceled, st1) else (Inl HTTPException, st1)))"



section \<open>Initial states and example inputs\<close>

text \<open>The registries as the \<^verbatim>\<open>__init__\<close> methods of the cogs make them.\<close>

definition new_cog :: cog where
  "new_cog = \<lparr> active_events = Map.empty, message_id_to_event_id = Map.empty \<rparr>"

definition new_tracker :: tracker where
  "new_tracker = \<lparr> tagged_members = Map.empty, tracked_message_ids = Map.empty,
                   db = (\<lambda>guild. Map.empty) \<rparr>"

text \<open>
  A cog holding one event: id 1234, made in channel 9 for roles Tank and Healer, start
  time 1000, posted as message 55.
\<close>

definition example_cog :: cog where
  "example_cog =
     \<lparr> active_events = [1234 \<mapsto> announced_event 9 1000 [''Tank'', ''Healer''] (Some 55)],
       message_id_to_event_id = [55 \<mapsto> 1234] \<rparr>"

text \<open>
  An interaction in guild 1, channel 7 (not a thread), where every member id is found,
  the posted message gets id 70 and Discord answers every call.
\<close>

definition example_interaction :: interaction where
  "example_interaction =
     \<lparr> i_guild_id = 1, i_channel_id = 7, i_is_thread = False, i_fetch_member = (\<lambda>n. True),
       i_sent_message_id = 70, i_discord_ok = True \<rparr>"

section \<open>Properties of the value parser\<close>

lemma lower_char_k: "lower_char CHR ''k'' = CHR ''k''"
  by (simp add: lower_char_def)

lemma lower_char_m: "lower_char CHR ''m'' = CHR ''m''"
  by (simp add: lower_char_def)

lemma is_space_lower_char: "is_space (lower_char c) = is_space c"
  by (auto simp: is_space_def lower_char_def Let_def)

lemma lower_char_idem: "lower_char (lower_char c) = lower_char c"
  by (auto simp: lower_char_def Let_def)

lemma lower_idem: "lower (lower s) = lower s"
  by (simp add: lower_def lower_char_idem)

lemma strip_lower: "strip (lower s) = lower (strip s)"
  by (simp add: strip_def lower_def dropWhile_map rev_map comp_def is_space_lower_char)

lemma lower_char_sign:
  "(lower_char c = CHR ''-'') = (c = CHR ''-'')"
  "(lower_char c = CHR ''+'') = (c = CHR ''+'')"
  by (auto simp: lower_char_def Let_def char_of_eq_iff take_bit_eq_mod)

lemma split_sign_lower: "split_sign s = (neg, u) \<Longrightarrow> split_sign (lower s) = (neg, lower u)"
  by (cases s) (auto simp: split_sign_def lower_def lower_char_sign split: if_splits)

text \<open>\<^verbatim>\<open>float()\<close> does not depend on the case of its argument.\<close>

lemma py_float_lower: "py_float (lower s) = py_float s"
proof -
  obtain neg u where su: "split_sign (strip s) = (neg, u)"
    by (cases "split_sign (strip s)")
  have "split_sign (strip (lower s)) = (neg, lower u)"
    using su by (simp add: strip_lower split_sign_lower)
  then show ?thesis
    using su by (simp add: py_float_def lower_idem)
qed

lemma parse_value_k:
  "parse_value (s @ ''k'') = map_option (\<lambda>x. py_mul x (Fin 1000)) (py_float s)"
  by (simp add: parse_value_def lower_def lower_char_k endswith_def
      py_float_lower[unfolded lower_def] butlast_append)

lemma parse_value_m:
  "parse_value (s @ ''m'') = map_option (\<lambda>x. py_mul x (Fin 1000000)) (py_float s)"
  by (simp add: parse_value_def lower_def lower_char_m endswith_def
      py_float_lower[unfolded lower_def] butlast_append)

lemma parse_value_minus_5k: "parse_value ''-5k'' = Some (Fin (- 5000))"
  by code_simp

lemma parse_value_5k: "parse_value ''5k'' = Some (Fin 5000)"
  by code_simp

text \<open>
  Claim C8.  \<^verbatim>\<open>parse_value("2.5k")\<close> is 2500, \<^verbatim>\<open>parse_value("1m")\<close> is 1000000, and
  \<^verbatim>\<open>parse_value("abc")\<close> is \<^verbatim>\<open>None\<close>, a result and not an exception.  In general a
  string that ends in \<^verbatim>\<open>k\<close> is parsed as what \<^verbatim>\<open>float\<close> makes of the text before the
  \<^verbatim>\<open>k\<close>, times 1000, and a string that ends in \<^verbatim>\<open>m\<close> as the text before the \<^verbatim>\<open>m\<close>
  times 1000000; when that text is not a float literal the result is \<^verbatim>\<open>None\<close>.
\<close>

theorem parse_value_magnitudes:
  "parse_value ''2.5k'' = Some (Fin 2500)
   \<and> parse_value ''1m'' = Some (Fin 1000000)
   \<and> parse_value ''abc'' = None
   \<and> parse_value (s @ ''k'') = map_option (\<lambda>x. py_mul x (Fin 1000)) (py_float s)
   \<and> parse_value (s @ ''m'') = map_option (\<lambda>x. py_mul x (Fin 1000000)) (py_float s)"
proof -
  have "parse_value ''2.5k'' = Some (Fin 2500)" by code_simp
  moreover have "parse_value ''1m'' = Some (Fin 1000000)" by code_simp
  moreover have "parse_value ''abc'' = None" by code_simp
  ultimately show ?thesis
    by (simp only: parse_value_k parse_value_m simp_thms)
qed

section \<open>Properties of the ledger\<close>

lemma remove_from_player_value_eq:
  "remove_from_player_value conn p a =
     conn(p \<mapsto> py_max (py_sub (get_player_value conn p) a) (Fin 0))"
  by (simp add: remove_from_player_value_def update_player_value_def)

lemma add_to_player_value_eq:
  "add_to_player_value conn p a = conn(p \<mapsto> py_add (get_player_value conn p) a)"
  by (simp add: add_to_player_value_def update_player_value_def)

lemma py_max_zero_not_negative: "\<not> py_lt (py_max x (Fin 0)) (Fin 0)"
  by (cases x) (simp_all add: py_max_def)

text \<open>
  Claim C9.  \<^verbatim>\<open>remove_from_player_value\<close> writes \<^verbatim>\<open>max(current - amount, 0)\<close> for the
  player and leaves every other entry alone; the entry it writes is never below 0,
  whatever the current value and the amount are; on finite values the entry is the
  larger of the difference and 0.
\<close>

theorem remove_from_player_value_floor:
  "remove_from_player_value conn p a =
     conn(p \<mapsto> py_max (py_sub (get_player_value conn p) a) (Fin 0))
   \<and> \<not> py_lt (get_player_value (remove_from_player_value conn p a) p) (Fin 0)
   \<and> get_player_value (remove_from_player_value (conn(p \<mapsto> Fin c)) p (Fin x)) p
       = Fin (max (c - x) 0)"
proof -
  have "\<not> py_lt (get_player_value (remove_from_player_value conn p a) p) (Fin 0)"
    by (simp add: remove_from_player_value_eq get_player_value_def py_max_zero_not_negative)
  moreover have "get_player_value (remove_from_player_value (conn(p \<mapsto> Fin c)) p (Fin x)) p
       = Fin (max (c - x) 0)"
    by (simp add: remove_from_player_value_eq get_player_value_def py_max_def py_sub_def max_def)
  ultimately show ?thesis
    using remove_from_player_value_eq by blast
qed

theorem remove_from_player_value_floor_witness:
  "get_player_value (remove_from_player_value (Map.empty(7 \<mapsto> Fin 5)) 7 (Fin 8)) 7 = Fin 0
   \<and> \<not> py_lt (get_player_value (remove_from_player_value (Map.empty(7 \<mapsto> Fin 5)) 7 (Fin 8)) 7)
          (Fin 0)"
  using remove_from_player_value_floor [of Map.empty 7 "Fin 8" 5 8]
    remove_from_player_value_floor [of "Map.empty(7 \<mapsto> Fin 5)" 7 "Fin 8" 5 8]
  by simp

text \<open>
  Claim C10.  \<^verbatim>\<open>add_to_player_value\<close> writes \<^verbatim>\<open>current + amount\<close> with no clamp;
  \<^verbatim>\<open>parse_value("-5k")\<close> is -5000; so \<^verbatim>\<open>/addvalue\<close> with \<^verbatim>\<open>-5k\<close> on a player without an
  entry leaves the entry at -5000, below 0, where \<^verbatim>\<open>/removevalue\<close> with \<^verbatim>\<open>5k\<close> leaves 0.
\<close>

theorem add_to_player_value_unclamped:
  "add_to_player_value conn p a = conn(p \<mapsto> py_add (get_player_value conn p) a)
   \<and> get_player_value (add_to_player_value (conn(p \<mapsto> Fin c)) p (Fin x)) p = Fin (c + x)
   \<and> parse_value ''-5k'' = Some (Fin (- 5000))
   \<and> add_value Map.empty p ''-5k'' = (Added (Fin (- 5000)), Map.empty(p \<mapsto> Fin (- 5000)))
   \<and> py_lt (get_player_value (snd (add_value Map.empty p ''-5k'')) p) (Fin 0)
   \<and> get_player_value (snd (remove_value Map.empty p ''5k'')) p = Fin 0"
proof -
  have a: "add_value Map.empty p ''-5k'' = (Added (Fin (- 5000)), Map.empty(p \<mapsto> Fin (- 5000)))"
    by (simp add: add_value_def parse_value_minus_5k add_to_player_value_eq get_player_value_def)
  have r: "get_player_value (snd (remove_value Map.empty p ''5k'')) p = Fin 0"
    by (simp add: remove_value_def parse_value_5k remove_from_player_value_eq
        get_player_value_def py_max_def py_sub_def)
  have g: "get_player_value (add_to_player_value (conn(p \<mapsto> Fin c)) p (Fin x)) p = Fin (c + x)"
    by (simp add: add_to_player_value_eq get_player_value_def)
  have l: "py_lt (get_player_value (snd (add_value Map.empty p ''-5k'')) p) (Fin 0)"
    by (simp add: a get_player_value_def)
  show ?thesis
    using a r g l add_to_player_value_eq parse_value_minus_5k by blast
qed

section \<open>Properties of role sign-up\<close>

lemma dict_set_keys: "fst ` set (dict_set d k v) = insert k (fst ` set d)"
  by (induction d k v rule: dict_set.induct) (simp_all add: insert_commute)

lemma dict_set_distinct: "distinct (map fst (dict_set d k v)) = distinct (map fst d)"
  by (induction d k v rule: dict_set.induct) (simp_all add: dict_set_keys)

lemma dict_set_values: "snd ` set (dict_set d k v) \<subseteq> insert v (snd ` set d)"
  by (induction d k v rule: dict_set.induct) auto

lemma dict_get_split:
  "dict_get d k = Some v0 \<Longrightarrow>
     \<exists>d1 d2. d = d1 @ (k, v0) # d2 \<and> k \<notin> fst ` set d1 \<and> (\<forall>v. dict_set d k v = d1 @ (k, v) # d2)"
proof (induction d)
  case Nil
  then show ?case by (simp add: dict_get_def)
next
  case (Cons p d)
  obtain k' v' where p: "p = (k', v')" by (cases p)
  show ?case
  proof (cases "k' = k")
    case True
    with Cons.prems p have "v' = v0" by (simp add: dict_get_def)
    with True p have "p # d = [] @ (k, v0) # d \<and> k \<notin> fst ` set [] \<and> (\<forall>v. dict_set (p # d) k v = [] @ (k, v) # d)"
      by simp
    then show ?thesis by blast
  next
    case False
    with Cons.prems p have "dict_get d k = Some v0" by (simp add: dict_get_def)
    from Cons.IH[OF this] obtain d1 d2 where
      "d = d1 @ (k, v0) # d2" "k \<notin> fst ` set d1" "\<forall>v. dict_set d k v = d1 @ (k, v) # d2" by blast
    with False p have "p # d = (p # d1) @ (k, v0) # d2 \<and> k \<notin> fst ` set (p # d1) \<and> (\<forall>v. dict_set (p # d) k v = (p # d1) @ (k, v) # d2)"
      by auto
    then show ?thesis by blast
  qed
qed

lemma dict_get_None_iff: "(dict_get d k = None) = (k \<notin> fst ` set d)"
  by (simp add: dict_get_def map_of_eq_None_iff)

lemma dict_fromkeys_aux:
  "fst ` set (foldl (\<lambda>d k. dict_set d k v) d ks) = fst ` set d \<union> set ks
   \<and> distinct (map fst (foldl (\<lambda>d k. dict_set d k v) d ks)) = distinct (map fst d)
   \<and> snd ` set (foldl (\<lambda>d k. dict_set d k v) d ks) \<subseteq> insert v (snd ` set d)"
proof (induction ks arbitrary: d)
  case Nil
  then show ?case by auto
next
  case (Cons k ks)
  have "snd ` set (foldl (\<lambda>d k. dict_set d k v) (dict_set d k v) ks) \<subseteq> insert v (snd ` set d)"
    using Cons.IH[of "dict_set d k v"] dict_set_values[of d k v] by blast
  then show ?case using Cons.IH[of "dict_set d k v"]
    by (simp add: dict_set_keys dict_set_distinct)
qed

lemma concat_all_empty: "set xss \<subseteq> {[]} \<Longrightarrow> concat xss = []"
  by (induction xss) auto

lemma new_event_wf: "slots_wf (new_event chan t rs) \<and> markers_ok (new_event chan t rs)
   \<and> fst ` set (user_roles (new_event chan t rs)) = set rs"
proof -
  let ?d = "dict_fromkeys rs ([]::user list)"
  have aux: "fst ` set ?d = set rs" "distinct (map fst ?d)" "snd ` set ?d \<subseteq> {[]}"
    using dict_fromkeys_aux[of "[]::user list" "[]::(role \<times> user list) list" rs]
    by (simp_all add: dict_fromkeys_def)
  have "set (map snd ?d) \<subseteq> {[]}" using aux(3) by simp
  then have c: "concat (map snd ?d) = []"
    by (rule concat_all_empty)
  have dc: "distinct (concat (map snd ?d))" "set (concat (map snd ?d)) = {}"
    by (simp_all only: c distinct.simps list.set)
  show ?thesis
    using aux(1,2) dc
    by (simp add: slots_wf_def markers_ok_def new_event_def all_users_def del: set_concat distinct_concat_iff)
qed
lemma concat_remove_everywhere:
  "distinct (concat (map snd d)) \<Longrightarrow>
     concat (map snd (remove_everywhere u d)) = removeAll u (concat (map snd d))"
  by (induction d) (auto simp: remove_everywhere_def distinct_remove1_removeAll)

lemma keys_remove_everywhere: "map fst (remove_everywhere u d) = map fst d"
  by (induction d) (auto simp: remove_everywhere_def)

lemma remove_everywhere_absent:
  "u \<notin> set (concat (map snd d)) \<Longrightarrow> remove_everywhere u d = d"
  by (induction d) (auto simp: remove_everywhere_def)

lemma toggle_role_cases:
  assumes wf: "slots_wf ev" and mk: "markers_ok ev"
    and g: "dict_get (user_roles ev) r = Some us"
  shows "(u \<in> set us \<longrightarrow>
            toggle_role ev r u =
              Inr (EmbedUpdated,
                   ev\<lparr> user_roles := dict_set (user_roles ev) r (remove1 u us),
                       active_users_roles := (active_users_roles ev)(u := None) \<rparr>)
            \<and> u \<notin> set (remove1 u us))
       \<and> (u \<notin> set us \<and> u \<in> set (all_users ev) \<longrightarrow> toggle_role ev r u = Inr (AlreadySignedUp, ev))
       \<and> (u \<notin> set (all_users ev) \<longrightarrow>
            toggle_role ev r u =
              Inr (EmbedUpdated,
                   ev\<lparr> user_roles := dict_set (user_roles ev) r (us @ [u]),
                       active_users_roles := (active_users_roles ev)(u \<mapsto> r) \<rparr>))"
proof -
  from dict_get_split[OF g] obtain d1 d2 where
    d: "user_roles ev = d1 @ (r, us) # d2" by blast
  have dus: "distinct us" using wf d by (simp add: slots_wf_def all_users_def)
  have sub: "set us \<subseteq> set (all_users ev)" using d by (auto simp: all_users_def)
  have m: "(active_users_roles ev u \<noteq> None) = (u \<in> set (all_users ev))"
    using mk by (auto simp: markers_ok_def dom_def)
  have c1: "u \<in> set us \<longrightarrow> u \<notin> set (remove1 u us)" using dus by simp
  have c3: "u \<notin> set (all_users ev) \<Longrightarrow> remove_everywhere u (user_roles ev) = user_roles ev"
    by (simp add: remove_everywhere_absent all_users_def)
  show ?thesis
    using g m sub c1 c3 by (auto simp: toggle_role_def)
qed


lemma toggle_role_slots_wf:
  assumes wf: "slots_wf ev" and t: "toggle_role ev r u = Inr (rep, ev')"
  shows "slots_wf ev' \<and> map fst (user_roles ev') = map fst (user_roles ev)"
proof -
  from t obtain us where g: "dict_get (user_roles ev) r = Some us"
    by (auto simp: toggle_role_def split: option.splits)
  from dict_get_split[OF g] obtain d1 d2 where
    d: "user_roles ev = d1 @ (r, us) # d2" and s: "\<forall>v. dict_set (user_roles ev) r v = d1 @ (r, v) # d2"
    by blast
  have dk: "distinct (map fst (user_roles ev))" and dc: "distinct (concat (map snd (user_roles ev)))"
    using wf by (simp_all add: slots_wf_def all_users_def)
  show ?thesis
  proof (cases "u \<in> set us")
    case True
    with t g s have ev': "user_roles ev' = d1 @ (r, remove1 u us) # d2"
      by (auto simp: toggle_role_def)
    have "set (remove1 u us) \<subseteq> set us" by (rule set_remove1_subset)
    then have "distinct (concat (map snd (d1 @ (r, remove1 u us) # d2)))"
      using dc d by (auto simp: distinct_remove1)
    then show ?thesis using dk d ev' by (simp add: slots_wf_def all_users_def)
  next
    case False
    show ?thesis
    proof (cases "active_users_roles ev u \<noteq> None")
      case True
      with False t g have "ev' = ev" by (auto simp: toggle_role_def)
      then show ?thesis using wf by simp
    next
      case nomark: False
      let ?c = "remove_everywhere u (user_roles ev)"
      from nomark False t g obtain us' where
        g': "dict_get ?c r = Some us'" and
        ev': "user_roles ev' = dict_set ?c r (us' @ [u])"
        by (auto simp: toggle_role_def Let_def split: option.splits)
      from dict_get_split[OF g'] obtain c1 c2 where
        c: "?c = c1 @ (r, us') # c2" and cs: "\<forall>v. dict_set ?c r v = c1 @ (r, v) # c2"
        by blast
      have cc: "concat (map snd ?c) = removeAll u (concat (map snd (user_roles ev)))"
        using dc by (rule concat_remove_everywhere)
      have dcc: "distinct (concat (map snd ?c))" "u \<notin> set (concat (map snd ?c))"
        using dc by (simp_all only: cc distinct_removeAll set_removeAll) auto
      have "distinct (concat (map snd (c1 @ (r, us' @ [u]) # c2)))"
        using dcc unfolding c by auto
      moreover have "map fst (c1 @ (r, us' @ [u]) # c2) = map fst (user_roles ev)"
        using keys_remove_everywhere[of u "user_roles ev"] unfolding c by simp
      ultimately show ?thesis using dk ev' cs by (simp add: slots_wf_def all_users_def)
    qed
  qed
qed

lemma toggle_role_markers_ok:
  assumes wf: "slots_wf ev" and mk: "markers_ok ev" and t: "toggle_role ev r u = Inr (rep, ev')"
  shows "markers_ok ev'"
proof -
  from t obtain us where g: "dict_get (user_roles ev) r = Some us"
    by (auto simp: toggle_role_def split: option.splits)
  from dict_get_split[OF g] obtain d1 d2 where
    d: "user_roles ev = d1 @ (r, us) # d2" and s: "\<forall>v. dict_set (user_roles ev) r v = d1 @ (r, v) # d2"
    by blast
  have dc: "distinct (concat (map snd (user_roles ev)))"
    using wf by (simp add: slots_wf_def all_users_def)
  note cases = toggle_role_cases[OF wf mk g, of u]
  consider "u \<in> set us" | "u \<notin> set us" "u \<in> set (all_users ev)" | "u \<notin> set (all_users ev)"
    by blast
  then show ?thesis
  proof cases
    case 1
    with cases t have ev': "ev' = ev\<lparr> user_roles := d1 @ (r, remove1 u us) # d2,
                       active_users_roles := (active_users_roles ev)(u := None) \<rparr>"
      using s by simp
    have "set (concat (map snd (d1 @ (r, remove1 u us) # d2))) = set (concat (map snd (user_roles ev))) - {u}"
      using dc 1 unfolding d by (auto simp: set_remove1_eq)
    then show ?thesis using mk unfolding ev' by (auto simp: markers_ok_def all_users_def)
  next
    case 2
    with cases t have "ev' = ev" by simp
    then show ?thesis using mk by simp
  next
    case 3
    with cases t have ev': "ev' = ev\<lparr> user_roles := d1 @ (r, us @ [u]) # d2,
                       active_users_roles := (active_users_roles ev)(u \<mapsto> r) \<rparr>"
      using s by simp
    have "set (concat (map snd (d1 @ (r, us @ [u]) # d2))) = insert u (set (concat (map snd (user_roles ev))))"
      unfolding d by auto
    then show ?thesis using mk unfolding ev' by (auto simp: markers_ok_def all_users_def)
  qed
qed

lemma toggles_inv:
  "slots_wf ev \<Longrightarrow> markers_ok ev \<Longrightarrow>
     slots_wf (toggles ev ops) \<and> markers_ok (toggles ev ops)
     \<and> map fst (user_roles (toggles ev ops)) = map fst (user_roles ev)"
proof (induction ops arbitrary: ev)
  case Nil
  then show ?case by simp
next
  case (Cons op ops)
  obtain r u where op: "op = (r, u)" by (cases op)
  show ?case
  proof (cases "toggle_role ev r u")
    case (Inl e)
    then show ?thesis using Cons op by simp
  next
    case (Inr p)
    obtain rep ev' where p: "p = (rep, ev')" by (cases p)
    have "slots_wf ev'" "map fst (user_roles ev') = map fst (user_roles ev)" "markers_ok ev'"
      using toggle_role_slots_wf[OF Cons.prems(1) Inr[unfolded p]]
        toggle_role_markers_ok[OF Cons.prems(1,2) Inr[unfolded p]] by simp_all
    then show ?thesis using Cons.IH[of ev'] Inr p op by simp
  qed
qed

lemma distinct_concat_one_slot:
  "distinct (concat (map snd d)) \<Longrightarrow> length (filter (\<lambda>(r, us). u \<in> set us) d) \<le> 1"
proof (induction d)
  case Nil
  then show ?case by simp
next
  case (Cons p d)
  obtain r us where p: "p = (r, us)" by (cases p)
  show ?case
  proof (cases "u \<in> set us")
    case True
    with Cons.prems p have "\<forall>q \<in> set d. u \<notin> set (snd q)" by auto
    then have "filter (\<lambda>(r, us). u \<in> set us) d = []"
      by (auto simp: filter_empty_conv)
    then show ?thesis using p by simp
  next
    case False
    then show ?thesis using Cons p by simp
  qed
qed

lemma slots_wf_at_most_one: "slots_wf ev \<Longrightarrow> at_most_one_role ev \<and> length (slots_of ev u) \<le> 1"
  using distinct_concat_one_slot[of "user_roles ev"]
  by (auto simp: slots_wf_def at_most_one_role_def slots_of_def all_users_def)

lemma toggles_announced_inv:
  "slots_wf (toggles (announced_event chan t rs m) ops) \<and> markers_ok (toggles (announced_event chan t rs m) ops)
   \<and> fst ` set (user_roles (toggles (announced_event chan t rs m) ops)) = set rs"
proof -
  have n: "slots_wf (announced_event chan t rs m)" "markers_ok (announced_event chan t rs m)"
      "fst ` set (user_roles (announced_event chan t rs m)) = set rs"
    using new_event_wf[of chan t rs]
    by (simp_all add: announced_event_def slots_wf_def markers_ok_def all_users_def)
  have "map fst (user_roles (toggles (announced_event chan t rs m) ops)) = map fst (user_roles (announced_event chan t rs m))"
    using toggles_inv[OF n(1,2), of ops] by simp
  then have "set (map fst (user_roles (toggles (announced_event chan t rs m) ops))) = set (map fst (user_roles (announced_event chan t rs m)))"
    by (rule arg_cong)
  then have "fst ` set (user_roles (toggles (announced_event chan t rs m) ops)) = set rs"
    using n(3) by simp
  then show ?thesis using toggles_inv[OF n(1,2), of ops] by simp
qed

text \<open>
  Claim C4.  On every event that exists, that is the entry made for a role template,
  posted or not, and changed by any sequence of clicks, for every role of the template
  and every user:
  if the user stands in that role's slot the click removes the user from it and clears
  the user's marker; otherwise, if the user stands in any slot, the click is refused
  with the already-signed-up reply and the event is unchanged; otherwise the user is
  appended to that role's slot and the marker is set to the role.
\<close>

theorem toggle_role_algorithm:
  assumes ev: "ev = toggles (announced_event chan t roles_list m) ops"
    and r: "role_name \<in> set roles_list"
  shows "\<exists>us. dict_get (user_roles ev) role_name = Some us
       \<and> (u \<in> set us \<longrightarrow>
            toggle_role ev role_name u =
              Inr (EmbedUpdated,
                   ev\<lparr> user_roles := dict_set (user_roles ev) role_name (remove1 u us),
                       active_users_roles := (active_users_roles ev)(u := None) \<rparr>)
            \<and> u \<notin> set (remove1 u us))
       \<and> (u \<notin> set us \<and> u \<in> set (all_users ev) \<longrightarrow>
            toggle_role ev role_name u = Inr (AlreadySignedUp, ev))
       \<and> (u \<notin> set (all_users ev) \<longrightarrow>
            toggle_role ev role_name u =
              Inr (EmbedUpdated,
                   ev\<lparr> user_roles := dict_set (user_roles ev) role_name (us @ [u]),
                       active_users_roles := (active_users_roles ev)(u \<mapsto> role_name) \<rparr>))"
proof -
  have inv: "slots_wf ev" "markers_ok ev" "fst ` set (user_roles ev) = set roles_list"
    using toggles_announced_inv[of chan t roles_list m ops] ev by simp_all
  from r inv(3) have "dict_get (user_roles ev) role_name \<noteq> None"
    by (simp add: dict_get_None_iff)
  then obtain us where g: "dict_get (user_roles ev) role_name = Some us" by blast
  show ?thesis using toggle_role_cases[OF inv(1,2) g, of u] g by blast
qed

lemma scenario_event:
  "toggles (announced_event 1 0 [''Tank'', ''Healer''] (Some 55)) [(''Tank'', ''A'')]
     = \<lparr> message_id = Some 55, channel_id = 1, user_roles = [(''Tank'', [''A'']), (''Healer'', [])],
         active_users_roles = [''A'' \<mapsto> ''Tank''], start_time = 0, cancelled = False \<rparr>"
  by (simp add: announced_event_def new_event_def dict_fromkeys_def toggle_role_def dict_get_def remove_everywhere_def)

theorem toggle_role_algorithm_witness:
  "''Healer'' \<in> set [''Tank'', ''Healer'']
   \<and> toggle_role (toggles (announced_event 1 0 [''Tank'', ''Healer''] (Some 55)) [(''Tank'', ''A'')]) ''Healer'' ''A''
       = Inr (AlreadySignedUp, toggles (announced_event 1 0 [''Tank'', ''Healer''] (Some 55)) [(''Tank'', ''A'')])
   \<and> toggle_role (toggles (announced_event 1 0 [''Tank'', ''Healer''] (Some 55)) [(''Tank'', ''A'')]) ''Tank'' ''A''
       = Inr (EmbedUpdated,
              \<lparr> message_id = Some 55, channel_id = 1, user_roles = [(''Tank'', []), (''Healer'', [])],
                active_users_roles = Map.empty, start_time = 0, cancelled = False \<rparr>)"
  using toggle_role_algorithm [OF refl, of "''Healer''" "[''Tank'', ''Healer'']" 1 0 "Some 55" "[(''Tank'', ''A'')]" "''A''"]
    toggle_role_algorithm [OF refl, of "''Tank''" "[''Tank'', ''Healer'']" 1 0 "Some 55" "[(''Tank'', ''A'')]" "''A''"]
  unfolding scenario_event
  by (simp add: dict_get_def all_users_def)

text \<open>
  Claim C5.  In every state reached from a new event, posted or not, by any sequence
  of clicks, every
  user stands in at most one role slot (and at most once in it).  Every click keeps
  this: from any slot table with distinct role names in which no user occurs twice,
  a successful or refused click leads to such a table again.
\<close>

theorem at_most_one_role_invariant:
  "at_most_one_role (toggles (announced_event chan t roles_list m) ops)
   \<and> length (slots_of (toggles (announced_event chan t roles_list m) ops) u) \<le> 1
   \<and> distinct (all_users (toggles (announced_event chan t roles_list m) ops))
   \<and> (slots_wf ev \<and> toggle_role ev r u' = Inr (rep, ev') \<longrightarrow> slots_wf ev' \<and> at_most_one_role ev')"
proof -
  have wf: "slots_wf (toggles (announced_event chan t roles_list m) ops)"
    using toggles_announced_inv[of chan t roles_list m ops] by simp
  have p: "slots_wf ev \<and> toggle_role ev r u' = Inr (rep, ev') \<longrightarrow> slots_wf ev' \<and> at_most_one_role ev'"
    using toggle_role_slots_wf[of ev r u' rep ev'] slots_wf_at_most_one[of ev'] by blast
  show ?thesis
    using wf slots_wf_at_most_one[OF wf, of u] p by (simp add: slots_wf_def)
qed

theorem at_most_one_role_invariant_witness:
  "slots_wf (toggles (announced_event 1 0 [''Tank'', ''Healer''] (Some 55)) [(''Tank'', ''A'')])
   \<and> toggle_role (toggles (announced_event 1 0 [''Tank'', ''Healer''] (Some 55)) [(''Tank'', ''A'')]) ''Healer'' ''B''
       = Inr (EmbedUpdated,
           \<lparr> message_id = Some 55, channel_id = 1, user_roles = [(''Tank'', [''A'']), (''Healer'', [''B''])],
             active_users_roles = [''A'' \<mapsto> ''Tank'', ''B'' \<mapsto> ''Healer''], start_time = 0, cancelled = False \<rparr>)
   \<and> at_most_one_role
           \<lparr> message_id = Some 55, channel_id = 1, user_roles = [(''Tank'', [''A'']), (''Healer'', [''B''])],
             active_users_roles = [''A'' \<mapsto> ''Tank'', ''B'' \<mapsto> ''Healer''], start_time = 0, cancelled = False \<rparr>
   \<and> length (slots_of (toggles (announced_event 1 0 [''Tank'', ''Healer''] (Some 55)) [(''Tank'', ''A'')]) ''A'') \<le> 1"
proof -
  let ?ev = "toggles (announced_event 1 0 [''Tank'', ''Healer''] (Some 55)) [(''Tank'', ''A'')]"
  let ?ev' = "\<lparr> message_id = Some 55, channel_id = 1, user_roles = [(''Tank'', [''A'']), (''Healer'', [''B''])],
             active_users_roles = [''A'' \<mapsto> ''Tank'', ''B'' \<mapsto> ''Healer''], start_time = 0, cancelled = False \<rparr>"
  have wf: "slots_wf ?ev"
    unfolding scenario_event by (simp add: slots_wf_def all_users_def)
  have tg: "toggle_role ?ev ''Healer'' ''B'' = Inr (EmbedUpdated, ?ev')"
    unfolding scenario_event by (simp add: toggle_role_def dict_get_def remove_everywhere_def)
  show ?thesis
    using at_most_one_role_invariant [of 1 0 "[''Tank'', ''Healer'']" "Some 55" "[(''Tank'', ''A'')]" "''A''" ?ev "''Healer''" "''B''" EmbedUpdated ?ev']
      wf tg by simp
qed

text \<open>
  For an event that is found and not cancelled, the button callback is the locked
  block run on the event's entry.
\<close>

lemma signup_callback_live:
  "message_id_to_event_id c mid = Some eid \<Longrightarrow> active_events c eid = Some ev \<Longrightarrow> \<not> cancelled ev \<Longrightarrow>
     signup_callback c role_name mid u =
       (case toggle_role ev role_name u of
          Inl e \<Rightarrow> Inl e
        | Inr (rep, ev') \<Rightarrow> Inr (rep, c\<lparr> active_events := (active_events c)(eid \<mapsto> ev') \<rparr>))"
  by (simp add: signup_callback_def)

section \<open>Properties of the countdown\<close>

text \<open>
  As long as no poll sees the flag, the loop of \<^verbatim>\<open>RaidAnnouncement.track_event_time\<close>
  sends what the clock readings determine.
\<close>

lemma raid_track_loop_unseen:
  "\<forall>(now, c) \<in> set obs. \<not> (case active_events c eid of None \<Rightarrow> False | Some ev \<Rightarrow> cancelled ev) \<Longrightarrow>
   raid_track_loop eid st sent obs =
     (let pre = before_start st obs;
          rem = (if \<not> sent \<and> list_ex (\<lambda>(now, c). st - now \<le> 300) pre then [Reminder] else [])
      in if length pre < length obs then (rem @ [StartNotice], Finished)
         else (rem, Sleeping (sent \<or> rem \<noteq> [])))"
proof (induction obs arbitrary: sent)
  case Nil
  then show ?case by (simp add: before_start_def)
next
  case (Cons ob obs)
  obtain now c where ob: "ob = (now, c)" by (cases ob)
  have u: "\<not> (case active_events c eid of None \<Rightarrow> False | Some ev \<Rightarrow> cancelled ev)"
    using Cons.prems ob by simp
  have r: "\<forall>(now, c) \<in> set obs. \<not> (case active_events c eid of None \<Rightarrow> False | Some ev \<Rightarrow> cancelled ev)"
    using Cons.prems by simp
  note IH = Cons.IH[OF r]
  show ?case
  proof (cases "st - now \<le> 0")
    case True
    then show ?thesis using u ob by (simp add: before_start_def)
  next
    case False
    show ?thesis
    proof (cases "st - now \<le> 300 \<and> \<not> sent")
      case True
      then show ?thesis using False u ob IH[of True]
        by (simp add: before_start_def Let_def)
    next
      case nr: False
      then show ?thesis using False u ob IH[of sent]
        by (auto simp: before_start_def Let_def)
    qed
  qed
qed








lemma example_cog_created:
  "record_message (register_event new_cog 1234 9 1000 [''Tank'', ''Healer'']) 1234 55 = Inr example_cog"
  by (simp add: record_message_def register_event_def new_cog_def example_cog_def
      announced_event_def)




text \<open>
  Claim C2.  The cancel button of \<^verbatim>\<open>f2b\<close> deletes the event from the registry in the
  same step that sets its flag, and \<^verbatim>\<open>RaidAnnouncement.track_event_time\<close> reads a missing
  event as not cancelled: after the event of the example is cancelled at its
  announcement, polls 240 and 180 seconds before the start and at the start still send
  the reminder and the start notice.
\<close>

theorem f2b_cancel_not_observed:
  "f2b_cancel_event_callback example_cog 55 (Some 42) True = (EventCancelled, new_cog)
   \<and> RaidAnnouncement_track_event_time 1234 1000 [(760, new_cog), (820, new_cog), (1000, new_cog)]
       = ([Reminder, StartNotice], Finished)"
  by (simp add: f2b_cancel_event_callback_def example_cog_def new_cog_def
      RaidAnnouncement_track_event_time_def)

text \<open>
  The same for every registry: a permitted cancel leaves no entry under the event id,
  and a countdown that only sees registries without the entry runs as if nothing had
  been cancelled.  The loop of \<^verbatim>\<open>ff\<close> instead ends with \<^verbatim>\<open>KeyError\<close> at its next poll.
\<close>

lemma f2b_cancel_removes:
  assumes "message_id_to_event_id c mid = Some eid" "role_id \<noteq> None" "role_id \<noteq> Some 0"
  shows "fst (f2b_cancel_event_callback c mid role_id True) = EventCancelled
       \<and> active_events (snd (f2b_cancel_event_callback c mid role_id True)) eid = None"
  using assms by (simp add: f2b_cancel_event_callback_def split: option.splits)

lemma raid_after_removal:
  assumes "\<forall>(now, c) \<in> set obs. active_events c eid = None"
  shows "RaidAnnouncement_track_event_time eid st obs = expected_notices st obs"
proof -
  have "\<forall>(now, c) \<in> set obs. \<not> (case active_events c eid of None \<Rightarrow> False | Some ev \<Rightarrow> cancelled ev)"
    using assms by fastforce
  from raid_track_loop_unseen[OF this, of st False]
  show ?thesis by (simp add: RaidAnnouncement_track_event_time_def expected_notices_def Let_def)
qed

lemma ff_cancel_removes:
  assumes "message_id_to_event_id c mid = Some eid" "role_id \<noteq> None" "role_id \<noteq> Some 0"
    "active_events c eid = Some ev"
  shows "\<exists>c'. ff_cancel_event_callback c mid role_id True = Inr (EventCancelled, c')
            \<and> active_events c' eid = None"
  using assms by (simp add: ff_cancel_event_callback_def)

lemma track_after_removal:
  "active_events c eid = None \<Longrightarrow> track_event_time st eid ((now, c) # obs) = ([], Raised KeyError)"
  by (simp add: track_event_time_def)

section \<open>Properties of loot splits\<close>

















text \<open>
  Confirming twice in channel 7: the first confirmation credits player 1, who has
  submitted, with the share and removes the split; the second raises and changes
  nothing.
\<close>

lemma finalize_split_example:
  "finalize_split
     (new_tracker\<lparr> tagged_members :=
        [7 \<mapsto> \<lparr> players = [(1, \<lparr> submitted = True, image_count = 1, value_added = False \<rparr>),
                           (2, \<lparr> submitted = False, image_count = 0, value_added = False \<rparr>)],
                worth = Fin 3000 \<rparr>] \<rparr>)
     example_interaction 7
   = (Inr Confirmed,
      new_tracker\<lparr> db := (\<lambda>guild. Map.empty)(1 := [1 \<mapsto> Fin 3000]) \<rparr>)
   \<and> finalize_split (new_tracker\<lparr> db := (\<lambda>guild. Map.empty)(1 := [1 \<mapsto> Fin 3000]) \<rparr>)
       example_interaction 7
   = (Inl KeyError, new_tracker\<lparr> db := (\<lambda>guild. Map.empty)(1 := [1 \<mapsto> Fin 3000]) \<rparr>)"
  by (simp add: finalize_split_def new_tracker_def example_interaction_def
      add_to_player_value_def update_player_value_def get_player_value_def)

text \<open>
  Claim C3 (amended).  For a context without an active split, \<^verbatim>\<open>finalize_split\<close> and
  \<^verbatim>\<open>cancel_split\<close> raise \<^verbatim>\<open>KeyError\<close> and \<^verbatim>\<open>on_message\<close> does nothing and reports nothing;
  in all three the registry and the ledgers are unchanged.
\<close>

theorem missing_split_operations:
  assumes "tagged_members st post_id = None"
  shows "finalize_split st i post_id = (Inl KeyError, st)
       \<and> cancel_split st i post_id = (Inl KeyError, st)
       \<and> on_message st (m\<lparr> m_channel_id := post_id \<rparr>) = ([], st)"
  using assms by (simp add: finalize_split_def cancel_split_def on_message_def)

theorem missing_split_operations_witness:
  "tagged_members new_tracker 7 = None
   \<and> finalize_split new_tracker example_interaction 7 = (Inl KeyError, new_tracker)
   \<and> cancel_split new_tracker example_interaction 7 = (Inl KeyError, new_tracker)
   \<and> on_message new_tracker
        \<lparr> m_attachments = True, m_content = '''', m_channel_id = 7, m_author = 3, m_fetch_ok = True \<rparr>
       = ([], new_tracker)"
  using missing_split_operations [of new_tracker 7 example_interaction
      "\<lparr> m_attachments = True, m_content = '''', m_channel_id = 7, m_author = 3, m_fetch_ok = True \<rparr>"]
  by (simp add: new_tracker_def)

text \<open>
  On the tracker as first made, confirming or cancelling in channel 7 raises.
\<close>

theorem missing_split_raises_counterexample:
  "tagged_members new_tracker 7 = None
   \<and> fst (finalize_split new_tracker example_interaction 7) = Inl KeyError
   \<and> fst (cancel_split new_tracker example_interaction 7) = Inl KeyError"
  by (simp add: new_tracker_def finalize_split_def cancel_split_def)













end
